theory Spec2Isabelle
  imports Complex_Main "HOL-Library.Char_ord" "HOL-Library.List_Lexorder"
    "HOL-Library.Multiset"
begin

section \<open>Expense tracker (main.py): a shallow embedding\<close>

text \<open>
  The program keeps one SQLite table \<^verbatim>\<open>expenses\<close> and exposes three tools
  (\<^verbatim>\<open>add_expense\<close>, \<^verbatim>\<open>list_expenses\<close>, \<^verbatim>\<open>summarize\<close>) and one resource
  (\<^verbatim>\<open>categories\<close>); \<^verbatim>\<open>init_db\<close> runs once when the module is loaded.

  Conventions of the model.
  \<^item> A Python \<^verbatim>\<open>str\<close> is a \<^typ>\<open>string\<close>, one \<^typ>\<open>char\<close> per code point (code points
    below 256). The order on strings is lexicographic by code point, which is the order
    SQLite's default BINARY collation gives to the UTF-8 encodings.
  \<^item> A Python \<^verbatim>\<open>float\<close> and a value of a REAL column are IEEE doubles. A finite double
    is the \<^typ>\<open>real\<close> number it denotes, so storing, returning and comparing amounts are
    exact. Adding doubles rounds: the aggregate \<^verbatim>\<open>SUM\<close> of the database engine is not
    computed by the model but is a parameter of it. Infinities and NaN are not part of
    the model.
  \<^item> The table is the list of its rows in insertion order, together with the counter
    that AUTOINCREMENT keeps in \<^verbatim>\<open>sqlite_sequence\<close>.
  \<^item> Every call of the database driver (connect, execute, commit, fetchall) may raise.
    Each operation takes as its first argument the exception the driver raises during
    that call, if any (\<open>None\<close>: the driver raises nothing).
  \<^item> A function whose result is \<open>exn + 'a\<close> raises \<open>e\<close> when the result is \<open>Inl e\<close>
    and returns \<open>v\<close> when it is \<open>Inr v\<close>.
\<close>

subsection \<open>Exceptions\<close>

text \<open>
  Three classes are told apart by the \<^verbatim>\<open>except\<close> clauses of the program:
  \<^verbatim>\<open>aiosqlite.OperationalError\<close> (a subclass of \<^verbatim>\<open>Exception\<close>), every other instance of
  \<^verbatim>\<open>Exception\<close>, and the exceptions that derive from \<^verbatim>\<open>BaseException\<close> only
  (\<^verbatim>\<open>KeyboardInterrupt\<close>, \<^verbatim>\<open>SystemExit\<close>, \<^verbatim>\<open>asyncio.CancelledError\<close>). The argument is the
  text \<^verbatim>\<open>str(e)\<close>.
\<close>

datatype exn = OperationalError string | Exception string | BaseException string

fun str :: "exn \<Rightarrow> string" where
  "str (OperationalError m) = m"
| "str (Exception m) = m"
| "str (BaseException m) = m"

text \<open>\<^verbatim>\<open>isinstance(e, aiosqlite.OperationalError)\<close> and \<^verbatim>\<open>isinstance(e, Exception)\<close>.\<close>

fun is_OperationalError :: "exn \<Rightarrow> bool" where
  "is_OperationalError (OperationalError m) = True"
| "is_OperationalError (Exception m) = False"
| "is_OperationalError (BaseException m) = False"

fun is_Exception :: "exn \<Rightarrow> bool" where
  "is_Exception (OperationalError m) = True"
| "is_Exception (Exception m) = True"
| "is_Exception (BaseException m) = False"

subsection \<open>Strings\<close>

text \<open>
  \<^verbatim>\<open>str.lower()\<close> on code points below 256: the letters A to Z and the Latin-1 capitals
  U+00C0 to U+00DE (the multiplication sign U+00D7 apart) move up by 32, which sets the
  bit of weight 32; every other code point stays.
\<close>

fun lower_char :: "char \<Rightarrow> char" where
  "lower_char (Char b0 b1 b2 b3 b4 b5 b6 b7) =
     (let c = Char b0 b1 b2 b3 b4 b5 b6 b7 in
      if (CHR ''A'' \<le> c \<and> c \<le> CHR ''Z'') \<or> (CHR 0xC0 \<le> c \<and> c \<le> CHR 0xDE \<and> c \<noteq> CHR 0xD7)
      then Char b0 b1 b2 b3 b4 True b6 b7 else c)"

definition lower :: "string \<Rightarrow> string" where
  "lower s = map lower_char s"

text \<open>\<^verbatim>\<open>s.startswith(p)\<close> and the substring test \<^verbatim>\<open>needle in hay\<close>.\<close>

definition startswith :: "string \<Rightarrow> string \<Rightarrow> bool" where
  "startswith s p = (take (length p) s = p)"

fun str_in :: "string \<Rightarrow> string \<Rightarrow> bool" where
  "str_in needle [] = (needle = [])"
| "str_in needle (h # hay) = (startswith (h # hay) needle \<or> str_in needle hay)"

text \<open>\<^verbatim>\<open>sep.join(xs)\<close>.\<close>

fun join :: "string \<Rightarrow> string list \<Rightarrow> string" where
  "join sep [] = []"
| "join sep [x] = x"
| "join sep (x # y # ys) = x @ sep @ join sep (y # ys)"

subsection \<open>Python values\<close>

text \<open>
  The values the tools return: a \<^verbatim>\<open>dict\<close> is an association list in insertion order.
\<close>

datatype val = VStr string | VInt int | VFloat real | VList "val list"
  | VDict "(string \<times> val) list"

text \<open>
  \<^verbatim>\<open>if category:\<close> on an optional string: \<^verbatim>\<open>None\<close> and the empty string are false.
\<close>

fun truthy :: "string option \<Rightarrow> bool" where
  "truthy None = False"
| "truthy (Some s) = (s \<noteq> [])"

subsection \<open>The table\<close>

record expense =
  id' :: int
  date :: string
  amount :: real
  category :: string
  subcategory :: string
  note' :: string

record db =
  expenses :: "expense list"
  sqlite_sequence :: int

text \<open>The largest rowid SQLite can store, \<open>2\<^sup>6\<^sup>3 - 1\<close>.\<close>

definition MAX_ROWID :: int where
  "MAX_ROWID = 9223372036854775807"

definition max_rowid :: "expense list \<Rightarrow> int" where
  "max_rowid rs = fold (\<lambda>r m. max (id' r) m) rs 0"

text \<open>
  \<^verbatim>\<open>INSERT INTO expenses(date, amount, category, subcategory, note) VALUES (?,?,?,?,?)\<close> on
  a table whose key is \<^verbatim>\<open>INTEGER PRIMARY KEY AUTOINCREMENT\<close>: the new rowid is one more
  than the largest rowid the table holds or has ever held (\<open>top_rowid\<close>, the larger of the
  counter in \<^verbatim>\<open>sqlite_sequence\<close> and the largest rowid present); when that is the largest
  possible rowid the statement fails with SQLITE_FULL, which the driver raises as an
  OperationalError. The result is \<^verbatim>\<open>cur.lastrowid\<close> and the new table.
\<close>

definition top_rowid :: "db \<Rightarrow> int" where
  "top_rowid t = max (sqlite_sequence t) (max_rowid (expenses t))"

definition sql_insert ::
  "string \<Rightarrow> real \<Rightarrow> string \<Rightarrow> string \<Rightarrow> string \<Rightarrow> db \<Rightarrow> exn + (int \<times> db)" where
  "sql_insert d a c sc n t =
     (let top = top_rowid t in
      if MAX_ROWID \<le> top then Inl (OperationalError ''database or disk is full'')
      else Inr (top + 1,
        \<lparr>expenses = expenses t @
           [\<lparr>id' = top + 1, date = d, amount = a, category = c, subcategory = sc, note' = n\<rparr>],
         sqlite_sequence = top + 1\<rparr>))"

text \<open>\<^verbatim>\<open>DELETE FROM expenses WHERE category = ?\<close>.\<close>

definition sql_delete_category :: "string \<Rightarrow> db \<Rightarrow> db" where
  "sql_delete_category c t = t\<lparr>expenses := filter (\<lambda>r. category r \<noteq> c) (expenses t)\<rparr>"

text \<open>
  \<^verbatim>\<open>ORDER BY\<close>: insertion sort by a comparison \<open>first a b\<close> (row \<open>a\<close> may stand before
  row \<open>b\<close>). Among rows that the sort key does not tell apart SQL leaves the order open;
  the model keeps them in the order of the input.
\<close>

fun insert_by :: "('a \<Rightarrow> 'a \<Rightarrow> bool) \<Rightarrow> 'a \<Rightarrow> 'a list \<Rightarrow> 'a list" where
  "insert_by first x [] = [x]"
| "insert_by first x (y # ys) =
     (if first x y then x # y # ys else y # insert_by first x ys)"

definition order_by :: "('a \<Rightarrow> 'a \<Rightarrow> bool) \<Rightarrow> 'a list \<Rightarrow> 'a list" where
  "order_by first xs = foldr (insert_by first) xs []"

text \<open>\<^verbatim>\<open>date BETWEEN ? AND ?\<close>, on TEXT values.\<close>

definition between :: "string \<Rightarrow> string \<Rightarrow> string \<Rightarrow> bool" where
  "between d lo hi = (lo \<le> d \<and> d \<le> hi)"

text \<open>\<^verbatim>\<open>ORDER BY date DESC, id DESC\<close>.\<close>

definition date_desc_id_desc :: "expense \<Rightarrow> expense \<Rightarrow> bool" where
  "date_desc_id_desc a b = (date b < date a \<or> (date a = date b \<and> id' b \<le> id' a))"

text \<open>
  \<^verbatim>\<open>SELECT id, date, amount, category, subcategory, note FROM expenses
  WHERE date BETWEEN ? AND ? ORDER BY date DESC, id DESC\<close>.
\<close>

definition sql_select_range :: "string \<Rightarrow> string \<Rightarrow> db \<Rightarrow> expense list" where
  "sql_select_range start_date end_date t =
     order_by date_desc_id_desc
       (filter (\<lambda>r. between (date r) start_date end_date) (expenses t))"

text \<open>
  What the model takes from the database engine without computing it.
  \<^item> \<open>sum_amount\<close>: the aggregate \<^verbatim>\<open>SUM(amount)\<close> over the rows of one group, as a function of
    their amounts in rowid order. The engine adds IEEE doubles, so the result is the
    exact sum only when no addition rounds.
  \<^item> \<open>order_by_total_amount_desc\<close>: the sorter that puts the result rows of the summary
    in the order of \<^verbatim>\<open>ORDER BY total_amount DESC\<close>. SQL leaves open the order among
    groups with equal totals, and so does the model.
\<close>

record engine =
  sum_amount :: "real list \<Rightarrow> real"
  order_by_total_amount_desc ::
    "(string \<times> real \<times> int) list \<Rightarrow> (string \<times> real \<times> int) list"

text \<open>
  \<^verbatim>\<open>SELECT category, SUM(amount) AS total_amount, COUNT(*) as count FROM expenses
  WHERE date BETWEEN ? AND ? [AND category = ?] GROUP BY category
  ORDER BY total_amount DESC\<close>. The optional third parameter is the category of the
  extra condition, when the query has it. A result row is the triple
  (category, total_amount, count).
\<close>

definition total_desc :: "string \<times> real \<times> int \<Rightarrow> string \<times> real \<times> int \<Rightarrow> bool" where
  "total_desc g h = (fst (snd h) \<le> fst (snd g))"

definition sql_select_summary ::
  "engine \<Rightarrow> string \<Rightarrow> string \<Rightarrow> string option \<Rightarrow> db \<Rightarrow> (string \<times> real \<times> int) list" where
  "sql_select_summary E start_date end_date cat t =
     (let matched = filter (\<lambda>r. between (date r) start_date end_date \<and>
                              (case cat of None \<Rightarrow> True | Some c \<Rightarrow> category r = c))
                      (expenses t);
          groups = sort (remdups (map category matched))
      in order_by_total_amount_desc E
           (map (\<lambda>c. (c, sum_amount E (map amount (filter (\<lambda>r. category r = c) matched)),
                        int (length (filter (\<lambda>r. category r = c) matched))))
              groups))"

text \<open>
  What is required of the engine's sorter: its result is a permutation of its argument,
  in descending order of the totals.
\<close>

definition sorts_by_total_desc ::
  "((string \<times> real \<times> int) list \<Rightarrow> (string \<times> real \<times> int) list) \<Rightarrow> bool" where
  "sorts_by_total_desc srt =
     (\<forall>gs. mset (srt gs) = mset gs \<and> sorted_wrt total_desc (srt gs))"

text \<open>\<^verbatim>\<open>dict(row)\<close> for a row of either query.\<close>

definition expense_dict :: "expense \<Rightarrow> val" where
  "expense_dict r = VDict [(''id'', VInt (id' r)), (''date'', VStr (date r)),
     (''amount'', VFloat (amount r)), (''category'', VStr (category r)),
     (''subcategory'', VStr (subcategory r)), (''note'', VStr (note' r))]"

definition summary_dict :: "string \<times> real \<times> int \<Rightarrow> val" where
  "summary_dict g = VDict [(''category'', VStr (fst g)),
     (''total_amount'', VFloat (fst (snd g))), (''count'', VInt (snd (snd g)))]"

subsection \<open>init_db\<close>

text \<open>
  The storage location holds no table yet (\<open>None\<close>) or a table. \<^verbatim>\<open>init_db\<close> creates the
  table if it is absent, then inserts a row of category \<^verbatim>\<open>test\<close>, deletes the rows of
  category \<^verbatim>\<open>test\<close> and commits. An exception is printed and raised again, so it reaches
  the caller (the module, which then does not load).
\<close>

definition create_table_if_not_exists :: "db option \<Rightarrow> db" where
  "create_table_if_not_exists store =
     (case store of None \<Rightarrow> \<lparr>expenses = [], sqlite_sequence = 0\<rparr> | Some t \<Rightarrow> t)"

definition init_db :: "exn option \<Rightarrow> db option \<Rightarrow> exn + db" where
  "init_db io store =
     (case io of
        Some e \<Rightarrow> Inl e
      | None \<Rightarrow>
          (case sql_insert ''2000-01-01'' 0 ''test'' [] [] (create_table_if_not_exists store) of
             Inl e \<Rightarrow> Inl e
           | Inr (i, t) \<Rightarrow> Inr (sql_delete_category ''test'' t)))"

subsection \<open>add_expense\<close>

text \<open>
  The body of the \<^verbatim>\<open>try\<close>, then the function with its two \<^verbatim>\<open>except\<close> clauses. When the
  body raises, the transaction is not committed and the table is as before.
\<close>

definition add_expense_try ::
  "exn option \<Rightarrow> string \<Rightarrow> real \<Rightarrow> string \<Rightarrow> string \<Rightarrow> string \<Rightarrow> db \<Rightarrow> (exn + val) \<times> db" where
  "add_expense_try io d a c sc n t =
     (case io of
        Some e \<Rightarrow> (Inl e, t)
      | None \<Rightarrow>
          (case sql_insert d a c sc n t of
             Inl e \<Rightarrow> (Inl e, t)
           | Inr (expense_id, t') \<Rightarrow>
               (Inr (VDict [(''status'', VStr ''success''), (''id'', VInt expense_id),
                            (''message'', VStr ''Expense added successfully'')]), t')))"

definition add_expense ::
  "exn option \<Rightarrow> string \<Rightarrow> real \<Rightarrow> string \<Rightarrow> string \<Rightarrow> string \<Rightarrow> db \<Rightarrow> (exn + val) \<times> db" where
  "add_expense io d a c sc n t =
     (case add_expense_try io d a c sc n t of
        (Inr v, t') \<Rightarrow> (Inr v, t')
      | (Inl e, t') \<Rightarrow>
          (if is_OperationalError e then
             (let msg = lower (str e) in
              if str_in ''readonly'' msg then
                (Inr (VDict [(''status'', VStr ''error''),
                   (''message'', VStr ''Database is read-only. Check file permissions.'')]), t')
              else
                (Inr (VDict [(''status'', VStr ''error''),
                   (''message'', VStr (''Database operational error: '' @ str e))]), t'))
           else if is_Exception e then
             (Inr (VDict [(''status'', VStr ''error''),
                (''message'', VStr (''Unexpected error: '' @ str e))]), t')
           else (Inl e, t')))"

subsection \<open>list_expenses\<close>

definition list_expenses_try :: "exn option \<Rightarrow> string \<Rightarrow> string \<Rightarrow> db \<Rightarrow> exn + val" where
  "list_expenses_try io start_date end_date t =
     (case io of
        Some e \<Rightarrow> Inl e
      | None \<Rightarrow>
          Inr (VDict [(''status'', VStr ''success''),
                 (''expenses'', VList (map expense_dict (sql_select_range start_date end_date t)))]))"

definition list_expenses :: "exn option \<Rightarrow> string \<Rightarrow> string \<Rightarrow> db \<Rightarrow> exn + val" where
  "list_expenses io start_date end_date t =
     (case list_expenses_try io start_date end_date t of
        Inr v \<Rightarrow> Inr v
      | Inl e \<Rightarrow>
          (if is_Exception e then
             Inr (VDict [(''status'', VStr ''error''),
                    (''message'', VStr (''Error listing expenses: '' @ str e))])
           else Inl e))"

subsection \<open>summarize\<close>

text \<open>
  The condition on the category joins the query only when \<^verbatim>\<open>category\<close> is true as a
  condition: neither \<^verbatim>\<open>None\<close> (the default) nor the empty string.
\<close>

definition summarize_try ::
  "engine \<Rightarrow> exn option \<Rightarrow> string \<Rightarrow> string \<Rightarrow> string option \<Rightarrow> db \<Rightarrow> exn + val" where
  "summarize_try E io start_date end_date cat t =
     (let params = (if truthy cat then cat else None) in
      case io of
        Some e \<Rightarrow> Inl e
      | None \<Rightarrow>
          Inr (VDict [(''status'', VStr ''success''),
                 (''summary'',
                  VList (map summary_dict (sql_select_summary E start_date end_date params t)))]))"

definition summarize ::
  "engine \<Rightarrow> exn option \<Rightarrow> string \<Rightarrow> string \<Rightarrow> string option \<Rightarrow> db \<Rightarrow> exn + val" where
  "summarize E io start_date end_date cat t =
     (case summarize_try E io start_date end_date cat t of
        Inr v \<Rightarrow> Inr v
      | Inl e \<Rightarrow>
          (if is_Exception e then
             Inr (VDict [(''status'', VStr ''error''),
                    (''message'', VStr (''Error summarizing expenses: '' @ str e))])
           else Inl e))"

subsection \<open>json.dumps\<close>

text \<open>
  The values \<^verbatim>\<open>categories\<close> serialises are strings, lists and dicts with string keys.
  \<^verbatim>\<open>json.dumps\<close> escapes (\<^verbatim>\<open>ensure_ascii\<close>) the double quote, the backslash and every
  code point outside the range from the space to the tilde. Without \<^verbatim>\<open>indent\<close> the
  separators are \<^verbatim>\<open>", "\<close> and \<^verbatim>\<open>": "\<close>; with \<^verbatim>\<open>indent=k\<close> every item stands on a line
  of its own, \<open>k\<close> spaces deeper per level, after the separator \<^verbatim>\<open>","\<close>.
\<close>

datatype json = JString string | JArray "json list" | JObject "(string \<times> json) list"

definition hex_digit :: "nat \<Rightarrow> char" where
  "hex_digit k = ''0123456789abcdef'' ! k"

definition escape_char :: "char \<Rightarrow> string" where
  "escape_char c =
     (if c = CHR 0x22 then [CHR 0x5C, CHR 0x22]
      else if c = CHR 0x5C then [CHR 0x5C, CHR 0x5C]
      else if c = CHR 0x0A then [CHR 0x5C, CHR ''n'']
      else if c = CHR 0x0D then [CHR 0x5C, CHR ''r'']
      else if c = CHR 0x09 then [CHR 0x5C, CHR ''t'']
      else if c = CHR 0x08 then [CHR 0x5C, CHR ''b'']
      else if c = CHR 0x0C then [CHR 0x5C, CHR ''f'']
      else if c < CHR 0x20 \<or> CHR 0x7E < c then
        [CHR 0x5C, CHR ''u'', CHR ''0'', CHR ''0'',
         hex_digit (of_char c div 16), hex_digit (of_char c mod 16)]
      else [c])"

definition encode_basestring_ascii :: "string \<Rightarrow> string" where
  "encode_basestring_ascii s = [CHR 0x22] @ concat (map escape_char s) @ [CHR 0x22]"

fun newline_indent :: "nat option \<Rightarrow> nat \<Rightarrow> string" where
  "newline_indent None level = []"
| "newline_indent (Some k) level = CHR 0x0A # replicate (k * level) (CHR '' '')"

fun item_separator :: "nat option \<Rightarrow> string" where
  "item_separator None = '', ''"
| "item_separator (Some k) = '',''"

fun json_dumps :: "nat option \<Rightarrow> nat \<Rightarrow> json \<Rightarrow> string" where
  "json_dumps indent level (JString s) = encode_basestring_ascii s"
| "json_dumps indent level (JArray []) = ''[]''"
| "json_dumps indent level (JArray (x # xs)) =
     ''['' @ newline_indent indent (Suc level) @
     join (item_separator indent @ newline_indent indent (Suc level))
       (map (json_dumps indent (Suc level)) (x # xs)) @
     newline_indent indent level @ '']''"
| "json_dumps indent level (JObject []) = ''{}''"
| "json_dumps indent level (JObject (kv # kvs)) =
     ''{'' @ newline_indent indent (Suc level) @
     join (item_separator indent @ newline_indent indent (Suc level))
       (map (\<lambda>(k, v). encode_basestring_ascii k @ '': '' @ json_dumps indent (Suc level) v)
          (kv # kvs)) @
     newline_indent indent level @ ''}''"

subsection \<open>categories\<close>

text \<open>
  What the resource meets at \<^verbatim>\<open>CATEGORIES_PATH\<close>: nothing (\<^verbatim>\<open>os.path.exists\<close> is false),
  or a path on which \<^verbatim>\<open>open(..., "r", encoding="utf-8")\<close> raises or returns a text file
  object. The file object is given by what its \<^verbatim>\<open>read()\<close> does: raise, or return the
  decoded text.
\<close>

datatype textio = TextIO "exn + string"

datatype path_state = Absent | Present "exn + textio"

fun read :: "textio \<Rightarrow> exn + string" where
  "read (TextIO r) = r"

fun os_path_exists :: "path_state \<Rightarrow> bool" where
  "os_path_exists Absent = False"
| "os_path_exists (Present r) = True"

fun py_open :: "path_state \<Rightarrow> exn + textio" where
  "py_open Absent = Inl (Exception ''[Errno 2] No such file or directory'')"
| "py_open (Present r) = r"

text \<open>
  \<^verbatim>\<open>async with f as g: body\<close> for a text file object \<open>f\<close>. The statement looks up
  \<^verbatim>\<open>__aenter__\<close> and \<^verbatim>\<open>__aexit__\<close> on the type of \<open>f\<close>; a text file object has
  \<^verbatim>\<open>__enter__\<close> and \<^verbatim>\<open>__exit__\<close> only, so the statement raises before the body runs
  (a \<^verbatim>\<open>TypeError\<close>; an \<^verbatim>\<open>AttributeError\<close> before Python 3.11). Both are instances of
  \<^verbatim>\<open>Exception\<close>; the text of the error depends on the interpreter and is a parameter.
\<close>

definition async_with :: "string \<Rightarrow> textio \<Rightarrow> (textio \<Rightarrow> exn + string) \<Rightarrow> exn + string" where
  "async_with protocol_error f body = Inl (Exception protocol_error)"

definition default_categories :: json where
  "default_categories = JObject [(''categories'', JArray [
     JString ''Food & Dining'',
     JString ''Transportation'',
     JString ''Shopping'',
     JString ''Entertainment'',
     JString ''Bills & Utilities'',
     JString ''Healthcare'',
     JString ''Travel'',
     JString ''Education'',
     JString ''Business'',
     JString ''Other''])]"

definition categories_try :: "string \<Rightarrow> path_state \<Rightarrow> exn + string" where
  "categories_try protocol_error p =
     (if os_path_exists p then
        (case py_open p of
           Inl e \<Rightarrow> Inl e
         | Inr f \<Rightarrow> async_with protocol_error f read)
      else Inr (json_dumps (Some 2) 0 default_categories))"

definition categories :: "string \<Rightarrow> path_state \<Rightarrow> exn + string" where
  "categories protocol_error p =
     (case categories_try protocol_error p of
        Inr s \<Rightarrow> Inr s
      | Inl e \<Rightarrow>
          (if is_Exception e then
             Inr (json_dumps None 0
                    (JObject [(''error'', JString (''Could not load categories: '' @ str e))]))
           else Inl e))"

subsection \<open>Sequences of calls\<close>

text \<open>
  The tools never update or delete a row, and only \<^verbatim>\<open>add_expense\<close> writes. A run of
  further \<^verbatim>\<open>add_expense\<close> calls, each with its own driver behaviour and arguments,
  takes the table through the states below (the results of the calls are dropped).
\<close>

type_synonym add_args = "exn option \<times> string \<times> real \<times> string \<times> string \<times> string"

fun add_expense_calls :: "add_args list \<Rightarrow> db \<Rightarrow> db" where
  "add_expense_calls [] t = t"
| "add_expense_calls ((io, d, a, c, sc, n) # calls) t =
     add_expense_calls calls (snd (add_expense io d a c sc n t))"

subsection \<open>A sample table\<close>

text \<open>
  The table of a location that was initialised once while empty (the row that
  \<^verbatim>\<open>init_db\<close> inserts and deletes has used rowid 1), and the same table after four
  \<^verbatim>\<open>add_expense\<close> calls. The theorems are evaluated on them.
\<close>

definition fresh_db :: db where
  "fresh_db = \<lparr>expenses = [], sqlite_sequence = 1\<rparr>"

definition lunch :: expense where
  "lunch = \<lparr>id' = 2, date = ''2024-01-05'', amount = 42.5, category = ''Food & Dining'',
     subcategory = [], note' = ''lunch''\<rparr>"

definition train :: expense where
  "train = \<lparr>id' = 3, date = ''2024-03-10'', amount = 18, category = ''Transportation'',
     subcategory = ''rail'', note' = []\<rparr>"

definition dinner :: expense where
  "dinner = \<lparr>id' = 4, date = ''2024-01-05'', amount = 30.25, category = ''Food & Dining'',
     subcategory = [], note' = ''dinner''\<rparr>"

definition probe :: expense where
  "probe = \<lparr>id' = 5, date = ''2023-12-24'', amount = 60, category = ''test'',
     subcategory = ''lab'', note' = ''oscilloscope probe''\<rparr>"

definition sample_db :: db where
  "sample_db = \<lparr>expenses = [lunch, train, dinner, probe], sqlite_sequence = 5\<rparr>"

text \<open>
  A table with a row whose category is the empty string, and an engine for the
  evaluations: it sorts by insertion and adds exactly. The amounts of the sample rows
  are multiples of 1/4 far below \<open>2\<^sup>5\<^sup>0\<close>, so their sums are doubles again and no
  addition rounds: on these tables the exact sum is the engine's \<^verbatim>\<open>SUM\<close>, and no two
  groups have equal totals.
\<close>

definition tip :: expense where
  "tip = \<lparr>id' = 5, date = ''2024-02-14'', amount = 4, category = [],
     subcategory = [], note' = ''tip''\<rparr>"

definition mixed_db :: db where
  "mixed_db = \<lparr>expenses = [lunch, train, dinner, tip], sqlite_sequence = 5\<rparr>"

definition sample_engine :: engine where
  "sample_engine = \<lparr>sum_amount = sum_list, order_by_total_amount_desc = order_by total_desc\<rparr>"

section \<open>Properties\<close>

subsection \<open>ORDER BY\<close>

text \<open>
  The sort keeps the rows, and its result is ordered when the comparison is total
  and transitive.
\<close>

lemma set_insert_by: "set (insert_by first x xs) = insert x (set xs)"
  by (induction xs) auto

lemma set_order_by: "set (order_by first xs) = set xs"
  by (induction xs) (simp_all add: order_by_def set_insert_by)

lemma sorted_wrt_insert_by:
  assumes total: "\<And>a b. first a b \<or> first b a"
    and trans: "\<And>a b c. first a b \<Longrightarrow> first b c \<Longrightarrow> first a c"
    and "sorted_wrt first xs"
  shows "sorted_wrt first (insert_by first x xs)"
  using assms(3)
proof (induction xs)
  case Nil
  then show ?case by simp
next
  case (Cons y ys)
  show ?case
  proof (cases "first x y")
    case True
    with Cons.prems trans show ?thesis by auto
  next
    case False
    with total have "first y x" by blast
    with False Cons show ?thesis by (auto simp: set_insert_by)
  qed
qed

lemma sorted_wrt_order_by:
  assumes "\<And>a b. first a b \<or> first b a"
    and "\<And>a b c. first a b \<Longrightarrow> first b c \<Longrightarrow> first a c"
  shows "sorted_wrt first (order_by first xs)"
proof (induction xs)
  case Nil
  show ?case by (simp add: order_by_def)
next
  case (Cons x xs)
  have "sorted_wrt first (insert_by first x (order_by first xs))"
    using assms Cons.IH by (rule sorted_wrt_insert_by)
  then show ?case by (simp add: order_by_def)
qed

subsection \<open>The range query\<close>

lemma date_desc_id_desc_total: "date_desc_id_desc a b \<or> date_desc_id_desc b a"
  unfolding date_desc_id_desc_def by (cases "date a = date b") auto

lemma date_desc_id_desc_trans:
  "date_desc_id_desc a b \<Longrightarrow> date_desc_id_desc b c \<Longrightarrow> date_desc_id_desc a c"
  unfolding date_desc_id_desc_def by auto

lemma sorted_sql_select_range:
  "sorted_wrt date_desc_id_desc (sql_select_range start_date end_date t)"
  unfolding sql_select_range_def
  by (rule sorted_wrt_order_by) (rule date_desc_id_desc_total, erule date_desc_id_desc_trans)

lemma set_sql_select_range:
  "set (sql_select_range start_date end_date t) =
     {r \<in> set (expenses t). start_date \<le> date r \<and> date r \<le> end_date}"
  by (auto simp: sql_select_range_def set_order_by between_def)

text \<open>
  What \<^verbatim>\<open>list_expenses\<close> returns when the driver raises nothing, with every record
  written out field by field.
\<close>

lemma list_expenses_records:
  "list_expenses None start_date end_date t =
     Inr (VDict [(''status'', VStr ''success''),
        (''expenses'', VList (map (\<lambda>r. VDict [(''id'', VInt (id' r)), (''date'', VStr (date r)),
             (''amount'', VFloat (amount r)), (''category'', VStr (category r)),
             (''subcategory'', VStr (subcategory r)), (''note'', VStr (note' r))])
           (sql_select_range start_date end_date t)))])"
  by (simp add: list_expenses_def list_expenses_try_def expense_dict_def [abs_def])

lemma order_positions:
  assumes s: "sorted_wrt date_desc_id_desc out"
    and i: "i < length out" and j: "j < length out"
    and gt: "date (out ! j) < date (out ! i) \<or>
             (date (out ! i) = date (out ! j) \<and> id' (out ! j) < id' (out ! i))"
  shows "i < j"
proof (rule ccontr)
  assume "\<not> i < j"
  then consider "i = j" | "j < i" by linarith
  then show False
  proof cases
    case 1
    with gt show False by simp
  next
    case 2
    with s i have "date_desc_id_desc (out ! j) (out ! i)"
      by (simp add: sorted_wrt_iff_nth_less)
    with gt show False
      unfolding date_desc_id_desc_def by auto
  qed
qed

subsection \<open>Rowids\<close>

text \<open>
  No row of the table has a rowid above \<open>top_rowid\<close>; an insert that succeeds uses
  \<open>top_rowid + 1\<close>; the calls of \<^verbatim>\<open>add_expense\<close> only append rows, with rowids above
  every earlier one.
\<close>

lemma fold_max_ge: "m \<le> fold (\<lambda>r m. max (id' r) m) rs m"
proof (induction rs arbitrary: m)
  case Nil
  show ?case by simp
next
  case (Cons x xs)
  have "m \<le> max (id' x) m" by simp
  also have "\<dots> \<le> fold (\<lambda>r m. max (id' r) m) xs (max (id' x) m)"
    by (rule Cons.IH)
  finally show ?case by simp
qed

lemma fold_max_member:
  "r \<in> set rs \<Longrightarrow> id' r \<le> fold (\<lambda>r m. max (id' r) m) rs m"
proof (induction rs arbitrary: m)
  case Nil
  then show ?case by simp
next
  case (Cons x xs)
  show ?case
  proof (cases "r = x")
    case True
    have "max (id' x) m \<le> fold (\<lambda>r m. max (id' r) m) xs (max (id' x) m)"
      by (rule fold_max_ge)
    with True show ?thesis by simp
  next
    case False
    with Cons show ?thesis by simp
  qed
qed

lemma id_le_max_rowid: "r \<in> set rs \<Longrightarrow> id' r \<le> max_rowid rs"
  unfolding max_rowid_def by (rule fold_max_member)

lemma max_rowid_snoc: "max_rowid (rs @ [r]) = max (id' r) (max_rowid rs)"
  by (simp add: max_rowid_def)

lemma id_le_top_rowid: "r \<in> set (expenses t) \<Longrightarrow> id' r \<le> top_rowid t"
  unfolding top_rowid_def by (auto dest: id_le_max_rowid)

lemma sql_insert_cases:
  "sql_insert d a c sc n t =
     (if MAX_ROWID \<le> top_rowid t then Inl (OperationalError ''database or disk is full'')
      else Inr (top_rowid t + 1,
        \<lparr>expenses = expenses t @
           [\<lparr>id' = top_rowid t + 1, date = d, amount = a, category = c, subcategory = sc, note' = n\<rparr>],
         sqlite_sequence = top_rowid t + 1\<rparr>))"
  by (simp add: sql_insert_def Let_def)

lemma add_expense_success:
  assumes "add_expense io d a c sc n t =
     (Inr (VDict [(''status'', VStr ''success''), (''id'', VInt i), (''message'', VStr msg)]), t1)"
  shows "i = top_rowid t + 1 \<and>
     t1 = \<lparr>expenses = expenses t @
             [\<lparr>id' = i, date = d, amount = a, category = c, subcategory = sc, note' = n\<rparr>],
           sqlite_sequence = i\<rparr>"
  using assms
  by (auto simp: add_expense_def add_expense_try_def sql_insert_cases Let_def
      split: option.splits if_splits)

lemma add_expense_table:
  "snd (add_expense io d a c sc n t) = t \<or>
   snd (add_expense io d a c sc n t) =
     \<lparr>expenses = expenses t @
        [\<lparr>id' = top_rowid t + 1, date = d, amount = a, category = c, subcategory = sc, note' = n\<rparr>],
      sqlite_sequence = top_rowid t + 1\<rparr>"
  by (auto simp: add_expense_def add_expense_try_def sql_insert_cases Let_def
      split: option.splits if_splits)

lemma add_expense_grows:
  "\<exists>new. expenses (snd (add_expense io d a c sc n t)) = expenses t @ new \<and>
     (\<forall>r \<in> set new. top_rowid t < id' r) \<and>
     top_rowid t \<le> top_rowid (snd (add_expense io d a c sc n t))"
  using add_expense_table [of io d a c sc n t]
proof
  assume "snd (add_expense io d a c sc n t) = t"
  then show ?thesis by simp
next
  assume *: "snd (add_expense io d a c sc n t) =
     \<lparr>expenses = expenses t @
        [\<lparr>id' = top_rowid t + 1, date = d, amount = a, category = c, subcategory = sc, note' = n\<rparr>],
      sqlite_sequence = top_rowid t + 1\<rparr>"
  show ?thesis
    unfolding * by (simp add: top_rowid_def max_rowid_snoc)
qed

lemma add_expense_calls_grow:
  "\<exists>new. expenses (add_expense_calls calls t) = expenses t @ new \<and>
     (\<forall>r \<in> set new. top_rowid t < id' r) \<and>
     top_rowid t \<le> top_rowid (add_expense_calls calls t)"
proof (induction calls arbitrary: t)
  case Nil
  show ?case by simp
next
  case (Cons call calls)
  obtain io d a c sc n where call: "call = (io, d, a, c, sc, n)"
    by (cases call) auto
  define t' where "t' = snd (add_expense io d a c sc n t)"
  from add_expense_grows [of io d a c sc n t]
  obtain new1 where 1: "expenses t' = expenses t @ new1"
    "\<forall>r \<in> set new1. top_rowid t < id' r" "top_rowid t \<le> top_rowid t'"
    unfolding t'_def by blast
  from Cons.IH [of t']
  obtain new2 where 2: "expenses (add_expense_calls calls t') = expenses t' @ new2"
    "\<forall>r \<in> set new2. top_rowid t' < id' r" "top_rowid t' \<le> top_rowid (add_expense_calls calls t')"
    by blast
  have "expenses (add_expense_calls (call # calls) t) = expenses t @ (new1 @ new2)"
    using 1 2 by (simp add: call t'_def)
  moreover have "\<forall>r \<in> set (new1 @ new2). top_rowid t < id' r"
    using 1 2 by fastforce
  moreover have "top_rowid t \<le> top_rowid (add_expense_calls (call # calls) t)"
    using 1 2 by (simp add: call t'_def)
  ultimately show ?case by blast
qed

lemma add_expense_try_raises:
  "fst (add_expense_try io d a c sc n t) = Inl e \<Longrightarrow>
     snd (add_expense_try io d a c sc n t) = t \<and>
     (io = Some e \<or> e = OperationalError ''database or disk is full'')"
  by (auto simp: add_expense_try_def sql_insert_def Let_def split: option.splits if_splits)

subsection \<open>GROUP BY\<close>

text \<open>
  Summing group by group, over a duplicate-free list of all the keys, sums everything;
  a permutation of the groups keeps their sums, their keys and their number.
\<close>

lemma sum_list_absent_key:
  fixes v :: "'b::comm_monoid_add"
  shows "k \<notin> set cs \<Longrightarrow> sum_list (map (\<lambda>c. if k = c then v else 0) cs) = 0"
  by (induction cs) auto

lemma sum_list_single_key:
  fixes v :: "'b::comm_monoid_add"
  assumes "distinct cs" "k \<in> set cs"
  shows "sum_list (map (\<lambda>c. if k = c then v else 0) cs) = v"
  using assms by (induction cs) (auto simp: sum_list_absent_key)

lemma sum_list_by_group:
  fixes f :: "'a \<Rightarrow> 'b::comm_monoid_add"
  assumes "distinct cs" "key ` set xs \<subseteq> set cs"
  shows "sum_list (map (\<lambda>c. sum_list (map f (filter (\<lambda>r. key r = c) xs))) cs) = sum_list (map f xs)"
  using assms(2)
proof (induction xs)
  case Nil
  show ?case by simp
next
  case (Cons x xs)
  have "sum_list (map (\<lambda>c. sum_list (map f (filter (\<lambda>r. key r = c) (x # xs)))) cs) =
        sum_list (map (\<lambda>c. (if key x = c then f x else 0) +
                          sum_list (map f (filter (\<lambda>r. key r = c) xs))) cs)"
    by (rule arg_cong [where f = sum_list]) (rule map_cong, simp_all)
  also have "\<dots> = sum_list (map (\<lambda>c. if key x = c then f x else 0) cs) +
        sum_list (map (\<lambda>c. sum_list (map f (filter (\<lambda>r. key r = c) xs))) cs)"
    by (simp add: sum_list_addf)
  also have "\<dots> = f x + sum_list (map f xs)"
    using Cons assms(1) by (simp add: sum_list_single_key)
  finally show ?case by simp
qed

lemma sum_list_map_permutation:
  fixes f :: "'a \<Rightarrow> 'b::comm_monoid_add"
  assumes "mset xs = mset ys"
  shows "sum_list (map f xs) = sum_list (map f ys)"
proof -
  have "sum_list (map f xs) = sum_mset (image_mset f (mset xs))"
    by (simp flip: sum_mset_sum_list)
  also have "\<dots> = sum_mset (image_mset f (mset ys))"
    by (simp only: assms)
  also have "\<dots> = sum_list (map f ys)"
    by (simp flip: sum_mset_sum_list)
  finally show ?thesis .
qed

lemma mset_insert_by: "mset (insert_by first x xs) = add_mset x (mset xs)"
  by (induction xs) auto

lemma mset_order_by: "mset (order_by first xs) = mset xs"
  by (induction xs) (simp_all add: order_by_def mset_insert_by)

lemma sorts_by_total_desc_order_by: "sorts_by_total_desc (order_by total_desc)"
  unfolding sorts_by_total_desc_def
proof (intro allI conjI)
  fix gs
  show "mset (order_by total_desc gs) = mset gs"
    by (rule mset_order_by)
  show "sorted_wrt total_desc (order_by total_desc gs)"
    by (rule sorted_wrt_order_by) (auto simp: total_desc_def)
qed

lemma filter_category_matched:
  "filter (\<lambda>r. category r = c) (filter P rs) = filter (\<lambda>r. P r \<and> category r = c) rs"
  by (simp add: conj_commute)

lemma sql_select_summary_groups:
  fixes E start_date end_date p t
  defines "matched \<equiv> filter (\<lambda>r. between (date r) start_date end_date \<and>
                              (case p of None \<Rightarrow> True | Some c \<Rightarrow> category r = c)) (expenses t)"
  defines "gs \<equiv> sql_select_summary E start_date end_date p t"
  assumes sorter: "sorts_by_total_desc (order_by_total_amount_desc E)"
  shows "set (map fst gs) = category ` set matched"
    and "distinct (map fst gs)"
    and "sum_list (map (\<lambda>g. snd (snd g)) gs) = int (length matched)"
    and "(\<And>g. g \<in> set gs \<Longrightarrow>
            fst (snd g) = sum_list (map amount (filter (\<lambda>r. category r = fst g) matched))) \<Longrightarrow>
         sum_list (map (\<lambda>g. fst (snd g)) gs) = sum_list (map amount matched)"
    and "g \<in> set gs \<Longrightarrow>
           fst (snd g) = sum_amount E (map amount (filter (\<lambda>r. category r = fst g) matched)) \<and>
           snd (snd g) = int (length (filter (\<lambda>r. category r = fst g) matched))"
proof -
  define cs where "cs = sort (remdups (map category matched))"
  define G where "G = (\<lambda>c. (c, sum_amount E (map amount (filter (\<lambda>r. category r = c) matched)),
                        int (length (filter (\<lambda>r. category r = c) matched))))"
  have gs: "gs = order_by_total_amount_desc E (map G cs)"
    unfolding gs_def sql_select_summary_def Let_def cs_def G_def matched_def ..
  have perm: "mset gs = mset (map G cs)"
    using sorter by (simp add: gs sorts_by_total_desc_def)
  have cs: "distinct cs" "set cs = category ` set matched"
    by (simp_all add: cs_def)
  have fst_G: "map fst (map G cs) = cs"
    by (simp add: G_def comp_def)
  have keys: "mset (map fst gs) = mset cs"
    using perm fst_G by (metis mset_map)
  from keys have "set (map fst gs) = set cs"
    by (rule mset_eq_setD)
  then show "set (map fst gs) = category ` set matched"
    by (simp only: cs(2))
  from mset_eq_imp_distinct_iff [OF keys] cs(1) show "distinct (map fst gs)"
    by blast
  have "sum_list (map (\<lambda>g. snd (snd g)) gs) = sum_list (map (\<lambda>g. snd (snd g)) (map G cs))"
    using perm by (rule sum_list_map_permutation)
  also have "\<dots> = sum_list (map (\<lambda>c. sum_list (map (\<lambda>r. 1 :: int) (filter (\<lambda>r. category r = c) matched))) cs)"
    by (simp add: G_def comp_def sum_list_triv)
  also have "\<dots> = sum_list (map (\<lambda>r. 1 :: int) matched)"
    by (rule sum_list_by_group) (simp_all add: cs)
  also have "\<dots> = int (length matched)"
    by (simp add: sum_list_triv)
  finally show "sum_list (map (\<lambda>g. snd (snd g)) gs) = int (length matched)" .
  have member: "g \<in> set gs \<Longrightarrow> \<exists>c. g = G c" for g
    using perm [THEN mset_eq_setD] by auto
  show "sum_list (map (\<lambda>g. fst (snd g)) gs) = sum_list (map amount matched)"
    if exact: "\<And>g. g \<in> set gs \<Longrightarrow>
            fst (snd g) = sum_list (map amount (filter (\<lambda>r. category r = fst g) matched))"
  proof -
    have "sum_list (map (\<lambda>g. fst (snd g)) gs) =
          sum_list (map (\<lambda>g. sum_list (map amount (filter (\<lambda>r. category r = fst g) matched))) gs)"
      by (rule arg_cong [where f = sum_list]) (rule map_cong, simp_all add: exact)
    also have "\<dots> = sum_list (map (\<lambda>g. sum_list (map amount (filter (\<lambda>r. category r = fst g) matched)))
                         (map G cs))"
      using perm by (rule sum_list_map_permutation)
    also have "\<dots> = sum_list (map (\<lambda>c. sum_list (map amount (filter (\<lambda>r. category r = c) matched))) cs)"
      by (simp add: G_def comp_def)
    also have "\<dots> = sum_list (map amount matched)"
      by (rule sum_list_by_group) (simp_all add: cs)
    finally show ?thesis .
  qed
  show "fst (snd g) = sum_amount E (map amount (filter (\<lambda>r. category r = fst g) matched)) \<and>
        snd (snd g) = int (length (filter (\<lambda>r. category r = fst g) matched))"
    if "g \<in> set gs"
  proof -
    from member [OF that] obtain c where "g = G c" ..
    then show ?thesis by (simp add: G_def)
  qed
qed

lemma summarize_None:
  "summarize E None start_date end_date cat t =
     Inr (VDict [(''status'', VStr ''success''),
       (''summary'', VList (map (\<lambda>g. VDict [(''category'', VStr (fst g)),
            (''total_amount'', VFloat (fst (snd g))), (''count'', VInt (snd (snd g)))])
          (sql_select_summary E start_date end_date (if truthy cat then cat else None) t)))])"
  by (simp add: summarize_def summarize_try_def summary_dict_def [abs_def])


subsection \<open>init_db\<close>

text \<open>
  On a table that has not used up its rowids, \<^verbatim>\<open>init_db\<close> returns; the table it leaves
  holds the rows whose category is not \<^verbatim>\<open>test\<close>, and the counter has moved by one. On
  an empty location the first rowid is spent on the row of the self-test.
\<close>

lemma init_db_result:
  assumes "top_rowid t < MAX_ROWID"
  shows "init_db None (Some t) =
     Inr \<lparr>expenses = filter (\<lambda>r. category r \<noteq> ''test'') (expenses t),
          sqlite_sequence = top_rowid t + 1\<rparr>"
  using assms
  by (simp add: init_db_def create_table_if_not_exists_def sql_insert_def
      sql_delete_category_def Let_def)

lemma init_db_empty_location: "init_db None None = Inr fresh_db"
  by (simp add: init_db_def create_table_if_not_exists_def sql_insert_def
      sql_delete_category_def top_rowid_def max_rowid_def MAX_ROWID_def fresh_db_def)

subsection \<open>Round trip\<close>

text \<open>
  C1. Let \<^verbatim>\<open>add_expense\<close> succeed with arguments (date, amount, category, subcategory,
  note) and return the id \<open>i\<close>. After any further \<^verbatim>\<open>add_expense\<close> calls, succeeding or
  failing, \<^verbatim>\<open>list_expenses\<close> over a range that contains the date (the driver raising
  nothing) returns the records of the stored rows \<open>out\<close> in the range, each record with
  the six fields \<^verbatim>\<open>id\<close>, \<^verbatim>\<open>date\<close>, \<^verbatim>\<open>amount\<close>, \<^verbatim>\<open>category\<close>, \<^verbatim>\<open>subcategory\<close>, \<^verbatim>\<open>note\<close> of
  its row. Among them is the record whose \<^verbatim>\<open>id\<close> is \<open>i\<close> and whose other five fields are
  exactly the inserted values; no other row of the result has id \<open>i\<close>; no row stored
  before the insert had id \<open>i\<close>, and \<open>i\<close> lies above the counter of the rowids used
  before. (The tools themselves never delete; what a later \<^verbatim>\<open>init_db\<close> does to the table
  is the subject of C4.)
\<close>

theorem add_then_list_round_trip:
  assumes add: "add_expense io d a c sc n t =
      (Inr (VDict [(''status'', VStr ''success''), (''id'', VInt i), (''message'', VStr msg)]), t1)"
    and later: "t2 = add_expense_calls calls t1"
    and range: "start_date \<le> d" "d \<le> end_date"
  shows "\<exists>out recs. list_expenses None start_date end_date t2 =
           Inr (VDict [(''status'', VStr ''success''), (''expenses'', VList recs)]) \<and>
         recs = map (\<lambda>r. VDict [(''id'', VInt (id' r)), (''date'', VStr (date r)),
             (''amount'', VFloat (amount r)), (''category'', VStr (category r)),
             (''subcategory'', VStr (subcategory r)), (''note'', VStr (note' r))]) out \<and>
         VDict [(''id'', VInt i), (''date'', VStr d), (''amount'', VFloat a),
                (''category'', VStr c), (''subcategory'', VStr sc), (''note'', VStr n)]
           \<in> set recs \<and>
         (\<forall>r \<in> set out. id' r = i \<longrightarrow>
            r = \<lparr>id' = i, date = d, amount = a, category = c, subcategory = sc, note' = n\<rparr>) \<and>
         (\<forall>r \<in> set (expenses t). id' r \<noteq> i) \<and>
         sqlite_sequence t < i"
proof -
  define row where "row = \<lparr>id' = i, date = d, amount = a, category = c, subcategory = sc, note' = n\<rparr>"
  define out where "out = sql_select_range start_date end_date t2"
  define rec where "rec = (\<lambda>r :: expense. VDict [(''id'', VInt (id' r)), (''date'', VStr (date r)),
             (''amount'', VFloat (amount r)), (''category'', VStr (category r)),
             (''subcategory'', VStr (subcategory r)), (''note'', VStr (note' r))])"
  from add_expense_success [OF add]
  have i: "i = top_rowid t + 1" and t1: "expenses t1 = expenses t @ [row]" and seq1: "sqlite_sequence t1 = i"
    by (simp_all add: row_def)
  have top1: "top_rowid t1 = i"
    using i by (simp add: top_rowid_def t1 seq1 max_rowid_snoc row_def)
  from add_expense_calls_grow [of calls t1]
  obtain new where new: "expenses t2 = expenses t1 @ new" "\<forall>r \<in> set new. i < id' r"
    unfolding later top1 by blast
  have old: "id' r < i" if "r \<in> set (expenses t)" for r
    using id_le_top_rowid [OF that] i by simp
  have "row \<in> set (expenses t2)"
    by (simp add: new t1)
  then have "row \<in> set out"
    using range by (simp add: out_def set_sql_select_range row_def)
  then have "rec row \<in> set (map rec out)"
    by simp
  then have member: "VDict [(''id'', VInt i), (''date'', VStr d), (''amount'', VFloat a),
                (''category'', VStr c), (''subcategory'', VStr sc), (''note'', VStr n)]
           \<in> set (map rec out)"
    by (simp add: rec_def row_def)
  have unique: "r = row" if "r \<in> set out" "id' r = i" for r
  proof -
    from that(1) have "r \<in> set (expenses t) \<or> r = row \<or> r \<in> set new"
      by (auto simp: out_def set_sql_select_range new t1)
    with that(2) old new(2) show ?thesis by fastforce
  qed
  have fresh: "\<forall>r \<in> set (expenses t). id' r \<noteq> i"
    using old by fastforce
  have seq: "sqlite_sequence t < i"
    using i by (simp add: top_rowid_def)
  have "list_expenses None start_date end_date t2 =
      Inr (VDict [(''status'', VStr ''success''), (''expenses'', VList (map rec out))])"
    unfolding out_def rec_def by (rule list_expenses_records)
  with member unique fresh seq show ?thesis
    unfolding row_def rec_def by blast
qed

theorem add_then_list_round_trip_witness:
  "add_expense None ''2024-01-05'' 42.5 ''Food & Dining'' [] ''lunch'' fresh_db =
     (Inr (VDict [(''status'', VStr ''success''), (''id'', VInt 2),
        (''message'', VStr ''Expense added successfully'')]),
      \<lparr>expenses = [lunch], sqlite_sequence = 2\<rparr>) \<and>
   sample_db = add_expense_calls
     [(None, ''2024-03-10'', 18, ''Transportation'', ''rail'', []),
      (Some (OperationalError ''database is locked''), ''2024-01-06'', 5, ''Other'', [], []),
      (None, ''2024-01-05'', 30.25, ''Food & Dining'', [], ''dinner''),
      (None, ''2023-12-24'', 60, ''test'', ''lab'', ''oscilloscope probe'')]
     \<lparr>expenses = [lunch], sqlite_sequence = 2\<rparr> \<and>
   ''2024-01-01'' \<le> ''2024-01-05'' \<and> ''2024-01-05'' \<le> ''2024-01-31'' \<and>
   list_expenses None ''2024-01-01'' ''2024-01-31'' sample_db =
     Inr (VDict [(''status'', VStr ''success''),
        (''expenses'', VList
           [VDict [(''id'', VInt 4), (''date'', VStr ''2024-01-05''), (''amount'', VFloat 30.25),
                   (''category'', VStr ''Food & Dining''), (''subcategory'', VStr []),
                   (''note'', VStr ''dinner'')],
            VDict [(''id'', VInt 2), (''date'', VStr ''2024-01-05''), (''amount'', VFloat 42.5),
                   (''category'', VStr ''Food & Dining''), (''subcategory'', VStr []),
                   (''note'', VStr ''lunch'')]])]) \<and>
   sqlite_sequence fresh_db < 2"
proof -
  have added: "add_expense None ''2024-01-05'' 42.5 ''Food & Dining'' [] ''lunch'' fresh_db =
     (Inr (VDict [(''status'', VStr ''success''), (''id'', VInt 2),
        (''message'', VStr ''Expense added successfully'')]),
      \<lparr>expenses = [lunch], sqlite_sequence = 2\<rparr>)"
    by (simp add: add_expense_def add_expense_try_def sql_insert_def top_rowid_def
        max_rowid_def MAX_ROWID_def fresh_db_def lunch_def)
  have later: "sample_db = add_expense_calls
     [(None, ''2024-03-10'', 18, ''Transportation'', ''rail'', []),
      (Some (OperationalError ''database is locked''), ''2024-01-06'', 5, ''Other'', [], []),
      (None, ''2024-01-05'', 30.25, ''Food & Dining'', [], ''dinner''),
      (None, ''2023-12-24'', 60, ''test'', ''lab'', ''oscilloscope probe'')]
     \<lparr>expenses = [lunch], sqlite_sequence = 2\<rparr>"
    by (simp add: add_expense_def add_expense_try_def sql_insert_def top_rowid_def
        max_rowid_def MAX_ROWID_def lower_def startswith_def
        sample_db_def lunch_def train_def dinner_def probe_def)
  have lo: "''2024-01-01'' \<le> ''2024-01-05''" and hi: "''2024-01-05'' \<le> ''2024-01-31''"
    by simp_all
  have listed: "list_expenses None ''2024-01-01'' ''2024-01-31'' sample_db =
     Inr (VDict [(''status'', VStr ''success''),
        (''expenses'', VList
           [VDict [(''id'', VInt 4), (''date'', VStr ''2024-01-05''), (''amount'', VFloat 30.25),
                   (''category'', VStr ''Food & Dining''), (''subcategory'', VStr []),
                   (''note'', VStr ''dinner'')],
            VDict [(''id'', VInt 2), (''date'', VStr ''2024-01-05''), (''amount'', VFloat 42.5),
                   (''category'', VStr ''Food & Dining''), (''subcategory'', VStr []),
                   (''note'', VStr ''lunch'')]])])"
    by (simp add: list_expenses_def list_expenses_try_def sql_select_range_def order_by_def
        between_def date_desc_id_desc_def expense_dict_def
        sample_db_def lunch_def train_def dinner_def probe_def)
  from add_then_list_round_trip [OF added later lo hi]
  have "sqlite_sequence fresh_db < 2"
    by blast
  with added later lo hi listed show ?thesis
    by simp
qed

subsection \<open>Aggregates\<close>

text \<open>
  What \<^verbatim>\<open>summarize\<close> returns when the driver raises nothing, for an engine whose sorter
  sorts: the records of the groups \<open>gs\<close>, each written out field by field, where the
  groups are those of the categories of the matched rows, one group per category, with
  the count and the engine's \<^verbatim>\<open>SUM\<close> of the matched rows of that category. A row is
  matched when its date is in the range and, for a category that is true as a
  condition, its category is that one.
\<close>

lemma summarize_groups:
  assumes "sorts_by_total_desc (order_by_total_amount_desc E)"
  shows "\<exists>gs. summarize E None start_date end_date cat t =
          Inr (VDict [(''status'', VStr ''success''),
            (''summary'', VList (map (\<lambda>g. VDict [(''category'', VStr (fst g)),
               (''total_amount'', VFloat (fst (snd g))), (''count'', VInt (snd (snd g)))]) gs))]) \<and>
     distinct (map fst gs) \<and>
     set (map fst gs) =
       category ` {r \<in> set (expenses t). start_date \<le> date r \<and> date r \<le> end_date \<and>
                     (if truthy cat then Some (category r) = cat else True)} \<and>
     sum_list (map (\<lambda>g. snd (snd g)) gs) =
       int (length (filter (\<lambda>r. start_date \<le> date r \<and> date r \<le> end_date \<and>
                     (if truthy cat then Some (category r) = cat else True)) (expenses t))) \<and>
     ((\<forall>g \<in> set gs. fst (snd g) =
          sum_list (map amount (filter (\<lambda>r. start_date \<le> date r \<and> date r \<le> end_date \<and>
                                     category r = fst g) (expenses t)))) \<longrightarrow>
      sum_list (map (\<lambda>g. fst (snd g)) gs) =
        sum_list (map amount (filter (\<lambda>r. start_date \<le> date r \<and> date r \<le> end_date \<and>
                     (if truthy cat then Some (category r) = cat else True)) (expenses t)))) \<and>
     (\<forall>g \<in> set gs.
        snd (snd g) = int (length (filter (\<lambda>r. start_date \<le> date r \<and> date r \<le> end_date \<and>
                                     category r = fst g) (expenses t))) \<and>
        fst (snd g) = sum_amount E (map amount (filter (\<lambda>r. start_date \<le> date r \<and> date r \<le> end_date \<and>
                                     category r = fst g) (expenses t))) \<and>
        0 < snd (snd g))"
proof -
  define p where "p = (if truthy cat then cat else None)"
  define gs where "gs = sql_select_summary E start_date end_date p t"
  define matched where "matched = filter (\<lambda>r. between (date r) start_date end_date \<and>
                              (case p of None \<Rightarrow> True | Some c \<Rightarrow> category r = c)) (expenses t)"
  note groups = sql_select_summary_groups
    [where E = E and start_date = start_date and end_date = end_date and p = p and t = t,
     OF assms, folded gs_def matched_def]
  have matched: "matched = filter (\<lambda>r. start_date \<le> date r \<and> date r \<le> end_date \<and>
                     (if truthy cat then Some (category r) = cat else True)) (expenses t)"
    unfolding matched_def p_def
    by (rule filter_cong) (auto simp: between_def split: option.splits)
  have keys: "p = Some c \<Longrightarrow> g \<in> set gs \<Longrightarrow> fst g = c" for c g
    using groups(1) by (force simp: matched_def)
  have same: "filter (\<lambda>r. category r = fst g) matched =
        filter (\<lambda>r. start_date \<le> date r \<and> date r \<le> end_date \<and> category r = fst g) (expenses t)"
    if g: "g \<in> set gs" for g
    unfolding matched_def filter_category_matched
    using keys [OF _ g] by (intro filter_cong) (auto simp: between_def split: option.splits)
  have each: "snd (snd g) = int (length (filter (\<lambda>r. start_date \<le> date r \<and> date r \<le> end_date \<and>
                                     category r = fst g) (expenses t))) \<and>
        fst (snd g) = sum_amount E (map amount (filter (\<lambda>r. start_date \<le> date r \<and> date r \<le> end_date \<and>
                                     category r = fst g) (expenses t))) \<and>
        0 < snd (snd g)" if g: "g \<in> set gs" for g
  proof -
    from groups(1) g have "fst g \<in> category ` set matched"
      by force
    then have "filter (\<lambda>r. category r = fst g) matched \<noteq> []"
      by (auto simp: filter_empty_conv)
    with groups(5) [OF g] show ?thesis
      unfolding same [OF g] by simp
  qed
  have exact: "sum_list (map (\<lambda>g. fst (snd g)) gs) = sum_list (map amount matched)"
    if "\<forall>g \<in> set gs. fst (snd g) =
          sum_list (map amount (filter (\<lambda>r. start_date \<le> date r \<and> date r \<le> end_date \<and>
                                     category r = fst g) (expenses t)))"
    by (rule groups(4)) (simp add: same that)
  have "summarize E None start_date end_date cat t =
          Inr (VDict [(''status'', VStr ''success''),
            (''summary'', VList (map (\<lambda>g. VDict [(''category'', VStr (fst g)),
               (''total_amount'', VFloat (fst (snd g))), (''count'', VInt (snd (snd g)))]) gs))])"
    unfolding gs_def p_def by (rule summarize_None)
  moreover have "set (map fst gs) =
       category ` {r \<in> set (expenses t). start_date \<le> date r \<and> date r \<le> end_date \<and>
                     (if truthy cat then Some (category r) = cat else True)}"
    using groups(1) by (simp add: matched)
  moreover note groups(2) groups(3) [unfolded matched] exact [unfolded matched] each
  ultimately show ?thesis
    by blast
qed




subsection \<open>Order of the listing\<close>

text \<open>
  C3. The list that \<^verbatim>\<open>list_expenses\<close> returns (the driver raising nothing) holds exactly
  the stored rows whose date is in the range, and for any two positions of it: when the
  record at position \<open>i\<close> has the lexically greater date, or the same date and the
  greater id, then \<open>i\<close> comes before the other position.
\<close>

theorem list_expenses_order:
  "\<exists>out. list_expenses None start_date end_date t =
           Inr (VDict [(''status'', VStr ''success''), (''expenses'', VList (map (\<lambda>r. VDict [(''id'', VInt (id' r)), (''date'', VStr (date r)),
                (''amount'', VFloat (amount r)), (''category'', VStr (category r)),
                (''subcategory'', VStr (subcategory r)), (''note'', VStr (note' r))]) out))]) \<and>
         set out = {r \<in> set (expenses t). start_date \<le> date r \<and> date r \<le> end_date} \<and>
         (\<forall>i j. i < length out \<and> j < length out \<and>
            (date (out ! j) < date (out ! i) \<or>
             (date (out ! i) = date (out ! j) \<and> id' (out ! j) < id' (out ! i))) \<longrightarrow> i < j)"
  using order_positions [OF sorted_sql_select_range]
  by (intro exI [of _ "sql_select_range start_date end_date t"] conjI
      list_expenses_records set_sql_select_range) blast

theorem list_expenses_order_witness:
  "list_expenses None ''2024-01-01'' ''2024-12-31'' sample_db =
     Inr (VDict [(''status'', VStr ''success''),
        (''expenses'', VList
           [VDict [(''id'', VInt 3), (''date'', VStr ''2024-03-10''), (''amount'', VFloat 18),
                   (''category'', VStr ''Transportation''), (''subcategory'', VStr ''rail''),
                   (''note'', VStr [])],
            VDict [(''id'', VInt 4), (''date'', VStr ''2024-01-05''), (''amount'', VFloat 30.25),
                   (''category'', VStr ''Food & Dining''), (''subcategory'', VStr []),
                   (''note'', VStr ''dinner'')],
            VDict [(''id'', VInt 2), (''date'', VStr ''2024-01-05''), (''amount'', VFloat 42.5),
                   (''category'', VStr ''Food & Dining''), (''subcategory'', VStr []),
                   (''note'', VStr ''lunch'')]])]) \<and>
   date lunch < date train \<and> date dinner < date train \<and>
   date dinner = date lunch \<and> id' lunch < id' dinner"
proof -
  have listed: "list_expenses None ''2024-01-01'' ''2024-12-31'' sample_db =
     Inr (VDict [(''status'', VStr ''success''),
        (''expenses'', VList
           [VDict [(''id'', VInt 3), (''date'', VStr ''2024-03-10''), (''amount'', VFloat 18),
                   (''category'', VStr ''Transportation''), (''subcategory'', VStr ''rail''),
                   (''note'', VStr [])],
            VDict [(''id'', VInt 4), (''date'', VStr ''2024-01-05''), (''amount'', VFloat 30.25),
                   (''category'', VStr ''Food & Dining''), (''subcategory'', VStr []),
                   (''note'', VStr ''dinner'')],
            VDict [(''id'', VInt 2), (''date'', VStr ''2024-01-05''), (''amount'', VFloat 42.5),
                   (''category'', VStr ''Food & Dining''), (''subcategory'', VStr []),
                   (''note'', VStr ''lunch'')]])])"
    by (simp add: list_expenses_def list_expenses_try_def sql_select_range_def order_by_def
        between_def date_desc_id_desc_def expense_dict_def
        sample_db_def lunch_def train_def dinner_def probe_def)
  from list_expenses_order [of "''2024-01-01''" "''2024-12-31''" sample_db]
  obtain out :: "expense list" where "list_expenses None ''2024-01-01'' ''2024-12-31'' sample_db =
      Inr (VDict [(''status'', VStr ''success''), (''expenses'', VList (map (\<lambda>r. VDict [(''id'', VInt (id' r)), (''date'', VStr (date r)),
                (''amount'', VFloat (amount r)), (''category'', VStr (category r)),
                (''subcategory'', VStr (subcategory r)), (''note'', VStr (note' r))]) out))])"
    by blast
  with listed show ?thesis
    by (simp add: lunch_def train_def dinner_def)
qed

subsection \<open>Initialising again\<close>

text \<open>
  C4. The claim expects a second \<^verbatim>\<open>init_db\<close> to leave every stored row as it is, rows of
  category \<^verbatim>\<open>test\<close> included. The self-test deletes by category, not by the rowid of the
  row it has inserted: on the sample table, which holds a row of category \<^verbatim>\<open>test\<close>
  added through \<^verbatim>\<open>add_expense\<close>, \<^verbatim>\<open>init_db\<close> returns and that row is gone.
\<close>

theorem init_db_deletes_rows_of_category_test:
  "probe \<in> set (expenses sample_db) \<and> category probe = ''test'' \<and>
   init_db None (Some sample_db) = Inr \<lparr>expenses = [lunch, train, dinner], sqlite_sequence = 6\<rparr>"
  by (simp add: init_db_def create_table_if_not_exists_def sql_insert_def
      sql_delete_category_def top_rowid_def max_rowid_def MAX_ROWID_def
      sample_db_def lunch_def train_def dinner_def probe_def)

subsection \<open>categories: an existing file\<close>

text \<open>
  C5. Where the file exists and opens, the claim expects its contents, returned as they
  are. The program enters \<^verbatim>\<open>async with\<close> on the file object, which raises before
  \<^verbatim>\<open>read\<close> is called: for every file that opens, whatever its contents, the body of the
  \<^verbatim>\<open>try\<close> raises and the result is the error document.
\<close>

theorem categories_existing_file_gives_error_document:
  "categories_try protocol_error (Present (Inr (TextIO (Inr contents)))) =
     Inl (Exception protocol_error) \<and>
   categories protocol_error (Present (Inr (TextIO (Inr contents)))) =
     Inr (json_dumps None 0
       (JObject [(''error'', JString (''Could not load categories: '' @ protocol_error))]))"
  by (simp add: categories_def categories_try_def async_with_def)

subsection \<open>Bounds of the range\<close>

text \<open>
  C6. For every range query (the driver raising nothing) the result holds stored rows
  only, and a stored row is in it exactly when its date \<open>d\<close> satisfies
  \<open>start_date \<le> d \<le> end_date\<close> in the lexicographic order of strings. Hence, for
  every range from \<open>start_date\<close> to \<open>end_date\<close> (\<open>start_date \<le> end_date\<close>), a stored row
  dated exactly \<open>start_date\<close> or exactly \<open>end_date\<close> is included, and a row dated
  lexically before \<open>start_date\<close> or after \<open>end_date\<close> is excluded. The comparison is
  not calendar-aware: \<^verbatim>\<open>2024-10-01\<close> is before \<^verbatim>\<open>2024-2-01\<close>.
\<close>

theorem list_expenses_inclusive_bounds:
  assumes "r \<in> set (expenses t)"
  shows "\<exists>out. list_expenses None start_date end_date t =
           Inr (VDict [(''status'', VStr ''success''),
              (''expenses'', VList (map (\<lambda>r. VDict [(''id'', VInt (id' r)), (''date'', VStr (date r)),
                (''amount'', VFloat (amount r)), (''category'', VStr (category r)),
                (''subcategory'', VStr (subcategory r)), (''note'', VStr (note' r))]) out))]) \<and>
         set out \<subseteq> set (expenses t) \<and>
         (r \<in> set out \<longleftrightarrow> start_date \<le> date r \<and> date r \<le> end_date) \<and>
         (start_date \<le> end_date \<and> (date r = start_date \<or> date r = end_date) \<longrightarrow>
            r \<in> set out) \<and>
         (date r < start_date \<or> end_date < date r \<longrightarrow> r \<notin> set out)"
proof -
  define out where "out = sql_select_range start_date end_date t"
  have "list_expenses None start_date end_date t =
      Inr (VDict [(''status'', VStr ''success''), (''expenses'', VList (map (\<lambda>r. VDict [(''id'', VInt (id' r)), (''date'', VStr (date r)),
                (''amount'', VFloat (amount r)), (''category'', VStr (category r)),
                (''subcategory'', VStr (subcategory r)), (''note'', VStr (note' r))]) out))])"
    unfolding out_def by (rule list_expenses_records)
  moreover have "set out \<subseteq> set (expenses t)"
    by (auto simp: out_def set_sql_select_range)
  moreover have "r \<in> set out \<longleftrightarrow> start_date \<le> date r \<and> date r \<le> end_date"
    using assms by (simp add: out_def set_sql_select_range)
  moreover from this
  have "start_date \<le> end_date \<and> (date r = start_date \<or> date r = end_date) \<longrightarrow> r \<in> set out"
    by auto
  moreover from \<open>r \<in> set out \<longleftrightarrow> start_date \<le> date r \<and> date r \<le> end_date\<close>
  have "date r < start_date \<or> end_date < date r \<longrightarrow> r \<notin> set out"
    by auto
  ultimately show ?thesis
    by blast
qed

theorem list_expenses_inclusive_bounds_witness:
  "lunch \<in> set (expenses sample_db) \<and> train \<in> set (expenses sample_db) \<and>
   probe \<in> set (expenses sample_db) \<and>
   ''2024-01-05'' \<le> ''2024-03-10'' \<and>
   date lunch = ''2024-01-05'' \<and> date train = ''2024-03-10'' \<and> date probe < ''2024-01-05'' \<and>
   list_expenses None ''2024-01-05'' ''2024-03-10'' sample_db =
     Inr (VDict [(''status'', VStr ''success''),
        (''expenses'', VList
           [VDict [(''id'', VInt 3), (''date'', VStr ''2024-03-10''), (''amount'', VFloat 18),
                   (''category'', VStr ''Transportation''), (''subcategory'', VStr ''rail''),
                   (''note'', VStr [])],
            VDict [(''id'', VInt 4), (''date'', VStr ''2024-01-05''), (''amount'', VFloat 30.25),
                   (''category'', VStr ''Food & Dining''), (''subcategory'', VStr []),
                   (''note'', VStr ''dinner'')],
            VDict [(''id'', VInt 2), (''date'', VStr ''2024-01-05''), (''amount'', VFloat 42.5),
                   (''category'', VStr ''Food & Dining''), (''subcategory'', VStr []),
                   (''note'', VStr ''lunch'')]])]) \<and>
   ''2024-10-01'' < ''2024-2-01''"
proof -
  have stored: "lunch \<in> set (expenses sample_db)"
    by (simp add: sample_db_def)
  have listed: "list_expenses None ''2024-01-05'' ''2024-03-10'' sample_db =
     Inr (VDict [(''status'', VStr ''success''),
        (''expenses'', VList
           [VDict [(''id'', VInt 3), (''date'', VStr ''2024-03-10''), (''amount'', VFloat 18),
                   (''category'', VStr ''Transportation''), (''subcategory'', VStr ''rail''),
                   (''note'', VStr [])],
            VDict [(''id'', VInt 4), (''date'', VStr ''2024-01-05''), (''amount'', VFloat 30.25),
                   (''category'', VStr ''Food & Dining''), (''subcategory'', VStr []),
                   (''note'', VStr ''dinner'')],
            VDict [(''id'', VInt 2), (''date'', VStr ''2024-01-05''), (''amount'', VFloat 42.5),
                   (''category'', VStr ''Food & Dining''), (''subcategory'', VStr []),
                   (''note'', VStr ''lunch'')]])])"
    by (simp add: list_expenses_def list_expenses_try_def sql_select_range_def order_by_def
        between_def date_desc_id_desc_def expense_dict_def
        sample_db_def lunch_def train_def dinner_def probe_def)
  from list_expenses_inclusive_bounds [OF stored, of "''2024-01-05''" "''2024-03-10''"]
  obtain out :: "expense list" where "list_expenses None ''2024-01-05'' ''2024-03-10'' sample_db =
      Inr (VDict [(''status'', VStr ''success''), (''expenses'', VList (map (\<lambda>r. VDict [(''id'', VInt (id' r)), (''date'', VStr (date r)),
                (''amount'', VFloat (amount r)), (''category'', VStr (category r)),
                (''subcategory'', VStr (subcategory r)), (''note'', VStr (note' r))]) out))])"
    by blast
  with stored listed show ?thesis
    by (simp add: sample_db_def lunch_def train_def probe_def)
qed

subsection \<open>Exceptions in the tools\<close>

text \<open>
  C7 as stated fails for an exception that is not an instance of \<^verbatim>\<open>Exception\<close>
  (\<^verbatim>\<open>asyncio.CancelledError\<close>, \<^verbatim>\<open>KeyboardInterrupt\<close>, \<^verbatim>\<open>SystemExit\<close>): no \<^verbatim>\<open>except\<close> clause
  of the three tools matches it, and it reaches the caller.
\<close>

theorem handlers_BaseException_counterexample:
  "add_expense_try (Some (BaseException [])) ''2024-01-05'' 42.5 ''Food & Dining'' [] ''lunch''
       sample_db = (Inl (BaseException []), sample_db) \<and>
   add_expense (Some (BaseException [])) ''2024-01-05'' 42.5 ''Food & Dining'' [] ''lunch''
       sample_db = (Inl (BaseException []), sample_db) \<and>
   list_expenses (Some (BaseException [])) ''2024-01-01'' ''2024-12-31'' sample_db =
     Inl (BaseException []) \<and>
   summarize sample_engine (Some (BaseException [])) ''2024-01-01'' ''2024-12-31'' None sample_db =
     Inl (BaseException [])"
  by (simp add: add_expense_def add_expense_try_def list_expenses_def list_expenses_try_def
      summarize_def summarize_try_def)

text \<open>
  C7, amended. When the driver raises nothing or an instance of \<^verbatim>\<open>Exception\<close>, each of
  \<^verbatim>\<open>add_expense\<close>, \<^verbatim>\<open>list_expenses\<close> and \<^verbatim>\<open>summarize\<close> returns a value, and whenever the
  body of its \<^verbatim>\<open>try\<close> raises, that value is a dict of the shape
  \<^verbatim>\<open>{"status": "error", "message": m}\<close> (and \<^verbatim>\<open>add_expense\<close> leaves the table as it was).
\<close>

theorem handlers_catch_Exception:
  assumes "\<forall>x. io = Some x \<longrightarrow> is_Exception x"
  shows "(\<exists>v. fst (add_expense io d a c sc n t) = Inr v \<and>
            (\<forall>e. fst (add_expense_try io d a c sc n t) = Inl e \<longrightarrow>
               snd (add_expense io d a c sc n t) = t \<and>
               (\<exists>m. v = VDict [(''status'', VStr ''error''), (''message'', VStr m)]))) \<and>
         (\<exists>v. list_expenses io start_date end_date t = Inr v \<and>
            (\<forall>e. list_expenses_try io start_date end_date t = Inl e \<longrightarrow>
               (\<exists>m. v = VDict [(''status'', VStr ''error''), (''message'', VStr m)]))) \<and>
         (\<exists>v. summarize E io start_date end_date cat t = Inr v \<and>
            (\<forall>e. summarize_try E io start_date end_date cat t = Inl e \<longrightarrow>
               (\<exists>m. v = VDict [(''status'', VStr ''error''), (''message'', VStr m)])))"
proof (intro conjI)
  show "\<exists>v. fst (add_expense io d a c sc n t) = Inr v \<and>
            (\<forall>e. fst (add_expense_try io d a c sc n t) = Inl e \<longrightarrow>
               snd (add_expense io d a c sc n t) = t \<and>
               (\<exists>m. v = VDict [(''status'', VStr ''error''), (''message'', VStr m)]))"
  proof (cases "add_expense_try io d a c sc n t")
    case (Pair res t')
    show ?thesis
    proof (cases res)
      case (Inr v)
      with Pair show ?thesis
        by (simp add: add_expense_def)
    next
      case (Inl e)
      with Pair add_expense_try_raises [of io d a c sc n t e]
      have t': "t' = t" and e: "io = Some e \<or> e = OperationalError ''database or disk is full''"
        by simp_all
      from e assms have "is_Exception e"
        by auto
      with Pair Inl t' show ?thesis
        by (simp add: add_expense_def Let_def)
    qed
  qed
next
  show "\<exists>v. list_expenses io start_date end_date t = Inr v \<and>
            (\<forall>e. list_expenses_try io start_date end_date t = Inl e \<longrightarrow>
               (\<exists>m. v = VDict [(''status'', VStr ''error''), (''message'', VStr m)]))"
    using assms by (cases io) (simp_all add: list_expenses_def list_expenses_try_def)
next
  show "\<exists>v. summarize E io start_date end_date cat t = Inr v \<and>
            (\<forall>e. summarize_try E io start_date end_date cat t = Inl e \<longrightarrow>
               (\<exists>m. v = VDict [(''status'', VStr ''error''), (''message'', VStr m)]))"
    using assms by (cases io) (simp_all add: summarize_def summarize_try_def)
qed

theorem handlers_catch_Exception_witness:
  "is_Exception (OperationalError ''disk I/O error'') \<and>
   add_expense (Some (OperationalError ''disk I/O error''))
       ''2024-01-05'' 42.5 ''Food & Dining'' [] ''lunch'' sample_db =
     (Inr (VDict [(''status'', VStr ''error''),
        (''message'', VStr ''Database operational error: disk I/O error'')]), sample_db) \<and>
   list_expenses (Some (OperationalError ''disk I/O error'')) ''2024-01-01'' ''2024-12-31''
       sample_db =
     Inr (VDict [(''status'', VStr ''error''),
        (''message'', VStr ''Error listing expenses: disk I/O error'')]) \<and>
   summarize sample_engine (Some (Exception ''no such column'')) ''2024-01-01'' ''2024-12-31'' None sample_db =
     Inr (VDict [(''status'', VStr ''error''),
        (''message'', VStr ''Error summarizing expenses: no such column'')]) \<and>
   add_expense (Some (Exception ''NOT NULL constraint failed: expenses.amount''))
       ''2024-01-05'' 42.5 ''Food & Dining'' [] ''lunch'' sample_db =
     (Inr (VDict [(''status'', VStr ''error''),
        (''message'', VStr ''Unexpected error: NOT NULL constraint failed: expenses.amount'')]),
      sample_db)"
proof -
  have h: "\<forall>x. Some (OperationalError ''disk I/O error'') = Some x \<longrightarrow> is_Exception x"
    by simp
  note caught = handlers_catch_Exception [OF h, of "''2024-01-05''" "42.5" "''Food & Dining''" "[]"
      "''lunch''" sample_db "''2024-01-01''" "''2024-12-31''" sample_engine None]
  from caught [THEN conjunct1]
  obtain v where "fst (add_expense (Some (OperationalError ''disk I/O error''))
       ''2024-01-05'' 42.5 ''Food & Dining'' [] ''lunch'' sample_db) = Inr v"
    by (elim exE conjE)
  then show ?thesis
    by (simp add: add_expense_def add_expense_try_def list_expenses_def list_expenses_try_def
        summarize_def summarize_try_def lower_def startswith_def)
qed

subsection \<open>add_expense: the read-only message\<close>

text \<open>
  C8. Whenever the body of \<^verbatim>\<open>add_expense\<close> raises an OperationalError whose text, in
  lower case, contains \<^verbatim>\<open>readonly\<close> (SQLite's text for a read-only store is
  \<^verbatim>\<open>attempt to write a readonly database\<close>), \<^verbatim>\<open>add_expense\<close> returns status \<^verbatim>\<open>error\<close>
  with exactly the message \<^verbatim>\<open>Database is read-only. Check file permissions.\<close>, and the
  table is as before.
\<close>

theorem add_expense_readonly_message:
  assumes raised: "fst (add_expense_try io d a c sc n t) = Inl (OperationalError m)"
    and readonly: "str_in ''readonly'' (lower m)"
  shows "add_expense io d a c sc n t =
           (Inr (VDict [(''status'', VStr ''error''),
              (''message'', VStr ''Database is read-only. Check file permissions.'')]), t)"
proof -
  from add_expense_try_raises [OF raised]
  have "snd (add_expense_try io d a c sc n t) = t"
    by simp
  with raised have "add_expense_try io d a c sc n t = (Inl (OperationalError m), t)"
    by (simp add: prod_eq_iff)
  with readonly show ?thesis
    by (simp add: add_expense_def)
qed

theorem add_expense_readonly_message_witness:
  "fst (add_expense_try (Some (OperationalError ''attempt to write a readonly database''))
       ''2024-01-05'' 42.5 ''Food & Dining'' [] ''lunch'' fresh_db) =
     Inl (OperationalError ''attempt to write a readonly database'') \<and>
   str_in ''readonly'' (lower ''attempt to write a readonly database'') \<and>
   add_expense (Some (OperationalError ''attempt to write a readonly database''))
       ''2024-01-05'' 42.5 ''Food & Dining'' [] ''lunch'' fresh_db =
     (Inr (VDict [(''status'', VStr ''error''),
        (''message'', VStr ''Database is read-only. Check file permissions.'')]), fresh_db)"
proof -
  have raised: "fst (add_expense_try (Some (OperationalError ''attempt to write a readonly database''))
       ''2024-01-05'' 42.5 ''Food & Dining'' [] ''lunch'' fresh_db) =
     Inl (OperationalError ''attempt to write a readonly database'')"
    by (simp add: add_expense_try_def)
  have readonly: "str_in ''readonly'' (lower ''attempt to write a readonly database'')"
    by (simp add: lower_def startswith_def)
  show ?thesis
    using raised readonly add_expense_readonly_message [OF raised readonly] by simp
qed

subsection \<open>categories: no file\<close>

text \<open>
  C9. When nothing exists at the path of the categories file, \<^verbatim>\<open>categories\<close> returns the
  serialisation, with indent 2, of the object whose only field \<^verbatim>\<open>categories\<close> is the list
  of the ten built-in labels in their order; the text is spelled out.
\<close>

theorem categories_fallback:
  assumes "\<not> os_path_exists p"
  shows \<open>categories protocol_error p =
      Inr (json_dumps (Some 2) 0 (JObject [(''categories'', JArray (map JString
        [''Food & Dining'', ''Transportation'', ''Shopping'', ''Entertainment'',
         ''Bills & Utilities'', ''Healthcare'', ''Travel'', ''Education'', ''Business'',
         ''Other'']))])) \<and>
    categories protocol_error p = Inr
      ''{\<newline>  "categories": [\<newline>    "Food & Dining",\<newline>    "Transportation",\<newline>    "Shopping",\<newline>    "Entertainment",\<newline>    "Bills & Utilities",\<newline>    "Healthcare",\<newline>    "Travel",\<newline>    "Education",\<newline>    "Business",\<newline>    "Other"\<newline>  ]\<newline>}''\<close>
proof -
  from assms have p: "p = Absent"
    by (cases p) simp_all
  show ?thesis
    unfolding p
    by (simp add: categories_def categories_try_def default_categories_def
        encode_basestring_ascii_def escape_char_def eval_nat_numeral)
qed

theorem categories_fallback_witness:
  \<open>\<not> os_path_exists Absent \<and>
   categories ''unused'' Absent = Inr
      ''{\<newline>  "categories": [\<newline>    "Food & Dining",\<newline>    "Transportation",\<newline>    "Shopping",\<newline>    "Entertainment",\<newline>    "Bills & Utilities",\<newline>    "Healthcare",\<newline>    "Travel",\<newline>    "Education",\<newline>    "Business",\<newline>    "Other"\<newline>  ]\<newline>}''\<close>
proof -
  have h: "\<not> os_path_exists Absent"
    by simp
  show ?thesis
    using h categories_fallback [OF h, of "''unused''", THEN conjunct2] by simp
qed

subsection \<open>summarize: the empty string is no filter\<close>

text \<open>
  C10. For every date range, driver behaviour, engine and table, \<^verbatim>\<open>summarize\<close> called
  with the empty string as category returns what it returns with no category. The
  empty string does not restrict the result to the group of the empty category: when
  the driver raises nothing and the engine's sorter sorts, the result holds one group
  for every category that a stored row in the range has, with pairwise different
  categories, and the count of each group is the number of rows of its category in
  the range.
\<close>

theorem summarize_empty_category_is_no_filter:
  assumes "sorts_by_total_desc (order_by_total_amount_desc E)"
  shows "summarize E io start_date end_date (Some []) t =
           summarize E io start_date end_date None t \<and>
         (\<exists>gs. summarize E None start_date end_date (Some []) t =
            Inr (VDict [(''status'', VStr ''success''),
              (''summary'', VList (map (\<lambda>g. VDict [(''category'', VStr (fst g)),
                 (''total_amount'', VFloat (fst (snd g))), (''count'', VInt (snd (snd g)))]) gs))]) \<and>
            distinct (map fst gs) \<and>
            set (map fst gs) =
              category ` {r \<in> set (expenses t). start_date \<le> date r \<and> date r \<le> end_date} \<and>
            (\<forall>g \<in> set gs.
               snd (snd g) = int (length (filter (\<lambda>r. start_date \<le> date r \<and> date r \<le> end_date \<and>
                                     category r = fst g) (expenses t))) \<and>
               fst (snd g) = sum_amount E (map amount (filter (\<lambda>r. start_date \<le> date r \<and>
                                     date r \<le> end_date \<and> category r = fst g) (expenses t)))))"
proof
  show "summarize E io start_date end_date (Some []) t =
           summarize E io start_date end_date None t"
    by (simp add: summarize_def summarize_try_def)
  from summarize_groups [OF assms, of start_date end_date "Some []" t]
  show "\<exists>gs. summarize E None start_date end_date (Some []) t =
            Inr (VDict [(''status'', VStr ''success''),
              (''summary'', VList (map (\<lambda>g. VDict [(''category'', VStr (fst g)),
                 (''total_amount'', VFloat (fst (snd g))), (''count'', VInt (snd (snd g)))]) gs))]) \<and>
            distinct (map fst gs) \<and>
            set (map fst gs) =
              category ` {r \<in> set (expenses t). start_date \<le> date r \<and> date r \<le> end_date} \<and>
            (\<forall>g \<in> set gs.
               snd (snd g) = int (length (filter (\<lambda>r. start_date \<le> date r \<and> date r \<le> end_date \<and>
                                     category r = fst g) (expenses t))) \<and>
               fst (snd g) = sum_amount E (map amount (filter (\<lambda>r. start_date \<le> date r \<and>
                                     date r \<le> end_date \<and> category r = fst g) (expenses t))))"
    by simp blast
qed

theorem summarize_empty_category_is_no_filter_witness:
  "sorts_by_total_desc (order_by_total_amount_desc sample_engine) \<and>
   tip \<in> set (expenses mixed_db) \<and> category tip = [] \<and>
   summarize sample_engine None ''2024-01-01'' ''2024-12-31'' (Some []) mixed_db =
     Inr (VDict [(''status'', VStr ''success''),
        (''summary'', VList
           [VDict [(''category'', VStr ''Food & Dining''), (''total_amount'', VFloat 72.75),
                   (''count'', VInt 2)],
            VDict [(''category'', VStr ''Transportation''), (''total_amount'', VFloat 18),
                   (''count'', VInt 1)],
            VDict [(''category'', VStr []), (''total_amount'', VFloat 4),
                   (''count'', VInt 1)]])]) \<and>
   summarize sample_engine None ''2024-01-01'' ''2024-12-31'' None mixed_db =
     summarize sample_engine None ''2024-01-01'' ''2024-12-31'' (Some []) mixed_db"
proof -
  have sorter: "sorts_by_total_desc (order_by_total_amount_desc sample_engine)"
    by (simp add: sample_engine_def sorts_by_total_desc_order_by)
  have groups: "summarize sample_engine None ''2024-01-01'' ''2024-12-31'' (Some []) mixed_db =
     Inr (VDict [(''status'', VStr ''success''),
        (''summary'', VList
           [VDict [(''category'', VStr ''Food & Dining''), (''total_amount'', VFloat 72.75),
                   (''count'', VInt 2)],
            VDict [(''category'', VStr ''Transportation''), (''total_amount'', VFloat 18),
                   (''count'', VInt 1)],
            VDict [(''category'', VStr []), (''total_amount'', VFloat 4),
                   (''count'', VInt 1)]])])"
    by (simp add: summarize_def summarize_try_def sql_select_summary_def order_by_def
        between_def total_desc_def summary_dict_def sample_engine_def
        mixed_db_def lunch_def train_def dinner_def tip_def)
  from summarize_empty_category_is_no_filter [OF sorter, of None "''2024-01-01''"
      "''2024-12-31''" mixed_db]
  have same: "summarize sample_engine None ''2024-01-01'' ''2024-12-31'' None mixed_db =
     summarize sample_engine None ''2024-01-01'' ''2024-12-31'' (Some []) mixed_db"
    by simp
  from sorter groups same show ?thesis
    by (simp add: mixed_db_def tip_def)
qed

end
